theory Spec2Isabelle
  imports Main "HOL-Library.AList" "HOL-Library.Char_ord" "HOL-Library.List_Lexorder"
    "HOL-Library.Sublist"
begin

section \<open>Paths\<close>

text \<open>
  The program runs on POSIX paths. A canonical path is the list of the names below the
  root directory \<open>/\<close>: absolute, no \<open>.\<close>, no \<open>..\<close>. The file system of the model has
  regular files and directories only (no symbolic links), so \<open>Path.resolve()\<close> is the
  lexical normalisation of the path against the working directory.
\<close>

type_synonym path = "string list"

text \<open>\<open>str.split('/')\<close>: the pieces between the separators, empty pieces included.\<close>

fun split_sep :: "string \<Rightarrow> string list" where
  "split_sep [] = [[]]"
| "split_sep (c # cs) =
     (if c = CHR ''/'' then [] # split_sep cs
      else (case split_sep cs of [] \<Rightarrow> [[c]] | x # xs \<Rightarrow> (c # x) # xs))"

text \<open>
  \<open>pathlib.PurePosixPath\<close>: whether the path starts at the root, and its names. The
  constructor drops empty names and \<open>.\<close>, and keeps \<open>..\<close>. (A path that starts with
  exactly two slashes has a root of its own in pathlib; the model reads it as \<open>/\<close>.)
\<close>

datatype ppath = PPath (is_absolute: bool) (names: "string list")

definition Path :: "string \<Rightarrow> ppath" where
  "Path s = PPath (case s of [] \<Rightarrow> False | c # _ \<Rightarrow> c = CHR ''/'')
                  (filter (\<lambda>n. n \<noteq> [] \<and> n \<noteq> ''.'') (split_sep s))"

text \<open>\<open>Path(a, b)\<close>: an absolute second argument replaces the first.\<close>

definition joinpath :: "ppath \<Rightarrow> ppath \<Rightarrow> ppath" where
  "joinpath a b = (if is_absolute b then b else PPath (is_absolute a) (names a @ names b))"

text \<open>\<open>Path.parts\<close>: the root counts as a part.\<close>

definition parts :: "ppath \<Rightarrow> string list" where
  "parts p = (if is_absolute p then [''/''] else []) @ names p"

text \<open>\<open>Path.parent\<close> drops the last name; the parent of \<open>/\<close> and of \<open>.\<close> is itself.\<close>

definition parent :: "ppath \<Rightarrow> ppath" where
  "parent p = PPath (is_absolute p) (butlast (names p))"

definition name_of :: "ppath \<Rightarrow> string" where
  "name_of p = (case names p of [] \<Rightarrow> [] | _ \<Rightarrow> last (names p))"

fun join_sep :: "string list \<Rightarrow> string" where
  "join_sep [] = []"
| "join_sep [n] = n"
| "join_sep (n # ns) = n @ ''/'' @ join_sep ns"

text \<open>\<open>str(path)\<close>.\<close>

definition path_str :: "ppath \<Rightarrow> string" where
  "path_str p =
     (if names p = [] then (if is_absolute p then ''/'' else ''.'')
      else (if is_absolute p then ''/'' else []) @ join_sep (names p))"

text \<open>
  Normalisation of \<open>..\<close>: each one removes the name before it, and \<open>/..\<close> is \<open>/\<close>.
\<close>

fun collapse :: "path \<Rightarrow> string list \<Rightarrow> path" where
  "collapse acc [] = acc"
| "collapse acc (n # ns) =
     (if n = ''..'' then collapse (butlast acc) ns else collapse (acc @ [n]) ns)"

text \<open>\<open>Path.resolve()\<close> in working directory \<open>wd\<close>.\<close>

definition resolve_in :: "path \<Rightarrow> ppath \<Rightarrow> path" where
  "resolve_in wd p = collapse (if is_absolute p then [] else wd) (names p)"

text \<open>\<open>str.endswith\<close>.\<close>

definition endswith :: "string \<Rightarrow> string \<Rightarrow> bool" where
  "endswith s suf = (length suf \<le> length s \<and> drop (length s - length suf) s = suf)"

text \<open>
  \<open>os.path.relpath(p, start)\<close> of two canonical paths: one \<open>..\<close> for each name of
  \<open>start\<close> below the common prefix, then the rest of \<open>p\<close>; \<open>.\<close> when nothing is left.
\<close>

fun common_len :: "path \<Rightarrow> path \<Rightarrow> nat" where
  "common_len (a # as) (b # bs) = (if a = b then Suc (common_len as bs) else 0)"
| "common_len _ _ = 0"

definition relpath :: "path \<Rightarrow> path \<Rightarrow> string" where
  "relpath p start =
     (let i = common_len start p;
          rel = replicate (length start - i) ''..'' @ drop i p
      in if rel = [] then ''.'' else join_sep rel)"

section \<open>The file system and the process environment\<close>

datatype node = File string | Dir "(string \<times> node) list"

text \<open>
  The state the program reads and writes: the entries of the root directory, the
  working directory (a canonical path) and the environment variables.
\<close>

record world =
  tree :: "(string \<times> node) list"
  cwd :: path
  environ :: "(string \<times> string) list"

fun fs_lookup :: "(string \<times> node) list \<Rightarrow> path \<Rightarrow> node option" where
  "fs_lookup es [] = Some (Dir es)"
| "fs_lookup es (n # ns) =
     (case map_of es n of
        None \<Rightarrow> None
      | Some (File b) \<Rightarrow> (if ns = [] then Some (File b) else None)
      | Some (Dir sub) \<Rightarrow> fs_lookup sub ns)"

text \<open>
  A system call on a path acts on the canonical path it names from the working
  directory. (The kernel refuses \<open>a/../b\<close> when \<open>a\<close> is missing, where the lexical
  reading finds \<open>b\<close>; the two agree on every path without \<open>..\<close> and whenever the
  directories named before each \<open>..\<close> exist.)
\<close>

text \<open>\<open>os.environ.get(k)\<close>.\<close>

definition getenv :: "world \<Rightarrow> string \<Rightarrow> string option" where
  "getenv w k = map_of (environ w) k"

text \<open>
  \<open>os.getcwd()\<close>: the kernel keeps the working directory canonical, so the field is
  read through the normalisation.
\<close>

definition getcwd :: "world \<Rightarrow> path" where
  "getcwd w = collapse [] (cwd w)"

definition resolve :: "world \<Rightarrow> ppath \<Rightarrow> path" where
  "resolve w p = resolve_in (getcwd w) p"

definition stat :: "world \<Rightarrow> ppath \<Rightarrow> node option" where
  "stat w p = fs_lookup (tree w) (resolve w p)"

definition exists :: "world \<Rightarrow> ppath \<Rightarrow> bool" where
  "exists w p = (stat w p \<noteq> None)"

definition is_file :: "world \<Rightarrow> ppath \<Rightarrow> bool" where
  "is_file w p = (case stat w p of Some (File _) \<Rightarrow> True | _ \<Rightarrow> False)"

definition is_dir :: "world \<Rightarrow> ppath \<Rightarrow> bool" where
  "is_dir w p = (case stat w p of Some (Dir _) \<Rightarrow> True | _ \<Rightarrow> False)"

text \<open>Truth value of an optional string: \<open>None\<close> and the empty string are false.\<close>

definition truthy :: "string option \<Rightarrow> bool" where
  "truthy x = (case x of None \<Rightarrow> False | Some s \<Rightarrow> s \<noteq> [])"

text \<open>\<open>x or d\<close> for an optional string \<open>x\<close>.\<close>

definition or_else :: "string option \<Rightarrow> string \<Rightarrow> string" where
  "or_else x d = (case x of None \<Rightarrow> d | Some s \<Rightarrow> if s = [] then d else s)"

section \<open>Exceptions\<close>

datatype error =
    ValueError string
  | TypeError
  | UnboundLocalError string
  | FileNotFoundError
  | FileExistsError
  | NotADirectoryError
  | IsADirectoryError
  | SameFileError
  | ShutilError
  | DAGSpecNotFound
  | RemoteFileNotFound string string

section \<open>\<open>ploomber/util/default.py\<close>\<close>

text \<open>
  \<open>find_file_recursively\<close>: the loop body runs \<open>max_levels_up\<close> times, on the
  starting directory and then on each parent in turn.
\<close>

fun find_file_loop :: "world \<Rightarrow> string \<Rightarrow> nat \<Rightarrow> path \<Rightarrow> path option" where
  "find_file_loop w name 0 current_dir = None"
| "find_file_loop w name (Suc n) current_dir =
     (let current_path = joinpath (PPath True current_dir) (Path name)
      in if exists w current_path then Some (resolve w current_path)
         else find_file_loop w name n (butlast current_dir))"

text \<open>
  \<open>current_dir = Path(starting_dir or os.getcwd()).resolve()\<close>; the working directory
  resolves to itself.
\<close>

definition start_dir :: "world \<Rightarrow> string option \<Rightarrow> path" where
  "start_dir w starting_dir =
     (case starting_dir of
        None \<Rightarrow> getcwd w
      | Some s \<Rightarrow> if s = [] then getcwd w else resolve w (Path s))"

definition find_file_recursively :: "world \<Rightarrow> string \<Rightarrow> nat \<Rightarrow> string option \<Rightarrow> path option" where
  "find_file_recursively w name max_levels_up starting_dir =
     find_file_loop w name max_levels_up (start_dir w starting_dir)"

definition options :: "string list" where
  "options = [''environment.yml'', ''environment.lock.yml'', ''requirements.txt'',
              ''requirements.lock.txt'', ''setup.py'']"

text \<open>The \<open>for name in options\<close> loop of \<open>find_root_recursively\<close>.\<close>

fun find_root_loop :: "world \<Rightarrow> string option \<Rightarrow> string list \<Rightarrow> path option" where
  "find_root_loop w starting_dir [] = None"
| "find_root_loop w starting_dir (name # rest) =
     (case find_file_recursively w name 6 starting_dir of
        Some p \<Rightarrow> Some (butlast p)
      | None \<Rightarrow> find_root_loop w starting_dir rest)"

definition find_root_recursively :: "world \<Rightarrow> string option \<Rightarrow> bool \<Rightarrow> error + path option" where
  "find_root_recursively w starting_dir do_raise =
     (case find_root_loop w starting_dir options of
        Some root \<Rightarrow> Inr (Some root)
      | None \<Rightarrow> if do_raise then Inl (ValueError ''Could not determine project root'')
                else Inr None)"

text \<open>
  \<open>glob.glob\<close> on a pattern whose only wildcard is a whole name \<open>*\<close>: the names of the
  pattern are followed from left to right, \<open>*\<close> stands for every entry of the directory
  reached so far whose name does not start with a dot, and a match is kept when it
  exists. The matches are the pattern's text with the entry in place of \<open>*\<close>.
\<close>

definition listdir :: "world \<Rightarrow> ppath \<Rightarrow> string list" where
  "listdir w p = (case stat w p of Some (Dir es) \<Rightarrow> remdups (map fst es) | _ \<Rightarrow> [])"

definition hidden :: "string \<Rightarrow> bool" where
  "hidden n = (case n of [] \<Rightarrow> False | c # _ \<Rightarrow> c = CHR ''.'')"

fun glob_from :: "world \<Rightarrow> ppath \<Rightarrow> string list \<Rightarrow> ppath list" where
  "glob_from w pre [] = (if exists w pre then [pre] else [])"
| "glob_from w pre (n # ns) =
     (if n = ''*''
      then concat (map (\<lambda>d. glob_from w (joinpath pre (PPath False [d])) ns)
                       (filter (\<lambda>d. \<not> hidden d) (listdir w pre)))
      else glob_from w (joinpath pre (PPath False [n])) ns)"

definition glob :: "world \<Rightarrow> ppath \<Rightarrow> string list" where
  "glob w pattern = map path_str (glob_from w (PPath (is_absolute pattern) []) (names pattern))"

definition package_location :: "world \<Rightarrow> ppath \<Rightarrow> string \<Rightarrow> string option" where
  "package_location w root_path name =
     (let pattern = joinpath (joinpath (joinpath root_path (Path ''src'')) (Path ''*'')) (Path name);
          candidates = sort (filter (\<lambda>f. \<not> endswith (path_str (parent (Path f))) ''.egg-info'')
                                    (glob w pattern))
      in case candidates of [] \<Rightarrow> None | c # _ \<Rightarrow> Some c)"

definition FILENAME :: "string option \<Rightarrow> string" where
  "FILENAME name = (case name of None \<Rightarrow> ''pipeline.yaml'' | Some n \<Rightarrow> ''pipeline.'' @ n @ ''.yaml'')"

definition entry_point :: "world \<Rightarrow> string option \<Rightarrow> string option \<Rightarrow> error + string" where
  "entry_point w root_path_arg name =
     (let root_path = or_else root_path_arg ''.'';
          env_var = getenv w ''ENTRY_POINT''
      in if truthy env_var then Inr (the env_var)
      else
        let pkg_location = package_location w (Path root_path) (FILENAME name);
            relative_to_root_path = joinpath (Path root_path) (Path (FILENAME name))
        in if \<not> exists w relative_to_root_path \<and> truthy pkg_location then Inr (the pkg_location)
        else
          case find_file_recursively w (FILENAME name) 6 (Some root_path) of
            Some parent_location \<Rightarrow> Inr (relpath parent_location (resolve w (Path root_path)))
          | None \<Rightarrow>
             (case find_root_recursively w (Some root_path) False of
                Inl e \<Rightarrow> Inl e
              | Inr None \<Rightarrow> Inl DAGSpecNotFound
              | Inr (Some root_project) \<Rightarrow>
                 (case package_location w (PPath True root_project) (FILENAME name) of
                    None \<Rightarrow> Inl DAGSpecNotFound
                  | Some pkg \<Rightarrow>
                      if pkg = [] then Inl DAGSpecNotFound
                      else Inr (relpath (resolve w (Path pkg)) (resolve w (Path root_path))))))"


text \<open>
  The \<open>path_to_parent\<close> argument of \<open>path_to_env_with_name\<close> is \<open>None\<close>, a string or a
  \<open>Path\<close>, as \<open>path_to_env\<close> and other callers pass it. A \<open>Path\<close> object is always true.
\<close>

datatype pathlike = PyNone | PyStr string | PyPath ppath

definition pl_truthy :: "pathlike \<Rightarrow> bool" where
  "pl_truthy x = (case x of PyNone \<Rightarrow> False | PyStr s \<Rightarrow> s \<noteq> [] | PyPath _ \<Rightarrow> True)"

text \<open>\<open>Path(x)\<close>: \<open>Path(None)\<close> raises \<open>TypeError\<close>.\<close>

definition to_Path :: "pathlike \<Rightarrow> error + ppath" where
  "to_Path x = (case x of PyNone \<Rightarrow> Inl TypeError | PyStr s \<Rightarrow> Inr (Path s) | PyPath p \<Rightarrow> Inr p)"

definition env_filename :: "string option \<Rightarrow> string" where
  "env_filename name = (case name of None \<Rightarrow> ''env.yaml'' | Some n \<Rightarrow> ''env.'' @ n @ ''.yaml'')"

text \<open>
  \<open>path_to_env_with_name\<close>. The local \<open>sibling_env\<close> is assigned only inside
  \<open>if path_to_parent:\<close>; the last \<open>raise\<close> formats it into its message, so reading it
  unassigned raises \<open>UnboundLocalError\<close> in place of the \<open>FileNotFoundError\<close>.
\<close>

definition path_to_env_with_name :: "world \<Rightarrow> string option \<Rightarrow> pathlike \<Rightarrow> error + string option" where
  "path_to_env_with_name w name path_to_parent =
     (let env_var = getenv w ''PLOOMBER_ENV_FILENAME'' in
      if truthy env_var \<and> length (parts (Path (the env_var))) > 1 then
        (case to_Path path_to_parent of
           Inl e \<Rightarrow> Inl e
         | Inr _ \<Rightarrow> Inl (ValueError ''PLOOMBER_ENV_FILENAME must be a filename''))
      else
        let filename = (if truthy env_var then the env_var else env_filename name);
            local_env = resolve w (joinpath (Path ''.'') (Path filename))
        in if exists w (PPath True local_env) then Inr (Some (path_str (PPath True local_env)))
        else
          let sibling_env = (if pl_truthy path_to_parent
                             then (case to_Path path_to_parent of
                                     Inl _ \<Rightarrow> None
                                   | Inr pp \<Rightarrow> Some (resolve w (joinpath pp (Path filename))))
                             else None)
          in case sibling_env of
               Some sib \<Rightarrow>
                 if exists w (PPath True sib) then Inr (Some (path_str (PPath True sib)))
                 else if truthy env_var then Inl FileNotFoundError
                 else Inr None
             | None \<Rightarrow>
                 if truthy env_var then Inl (UnboundLocalError ''sibling_env'')
                 else Inr None)"

section \<open>Writing to the file system\<close>

text \<open>
  The entry at a canonical path is set to a node; the directory that holds it must
  exist (the callers check that), and nothing else changes.
\<close>

fun fs_put :: "(string \<times> node) list \<Rightarrow> path \<Rightarrow> node \<Rightarrow> (string \<times> node) list" where
  "fs_put es [] new = es"
| "fs_put es [n] new = AList.update n new es"
| "fs_put es (n # ns) new =
     (case map_of es n of
        Some (Dir sub) \<Rightarrow> AList.update n (Dir (fs_put sub ns new)) es
      | _ \<Rightarrow> es)"

text \<open>
  \<open>Path.mkdir(parents=True, exist_ok=True)\<close> on a canonical path: the missing
  directories along the path are created. A regular file where the directory should be
  raises \<open>FileExistsError\<close>, a regular file above it \<open>NotADirectoryError\<close>; both are
  raised before anything is created.
\<close>

fun mkdirs :: "(string \<times> node) list \<Rightarrow> path \<Rightarrow> error + (string \<times> node) list" where
  "mkdirs es [] = Inr es"
| "mkdirs es (n # ns) =
     (case map_of es n of
        Some (File _) \<Rightarrow> Inl (if ns = [] then FileExistsError else NotADirectoryError)
      | Some (Dir sub) \<Rightarrow>
          (case mkdirs sub ns of Inl e \<Rightarrow> Inl e | Inr sub' \<Rightarrow> Inr (AList.update n (Dir sub') es))
      | None \<Rightarrow>
          (case mkdirs [] ns of Inl e \<Rightarrow> Inl e | Inr sub' \<Rightarrow> Inr (AList.update n (Dir sub') es)))"

text \<open>
  The error of a system call on a path that does not exist: \<open>ENOTDIR\<close> when a regular
  file stands on the way, \<open>ENOENT\<close> otherwise.
\<close>

fun missing_error :: "(string \<times> node) list \<Rightarrow> path \<Rightarrow> error" where
  "missing_error es [] = FileNotFoundError"
| "missing_error es (n # ns) =
     (case map_of es n of
        None \<Rightarrow> FileNotFoundError
      | Some (File _) \<Rightarrow> NotADirectoryError
      | Some (Dir sub) \<Rightarrow> missing_error sub ns)"

text \<open>
  The outcome of an operation that writes: it returns, or it raises and leaves a state
  the model describes, or it raises partway through a copy and leaves a partly written
  destination that the model does not describe.
\<close>

datatype outcome = Done world | Raised error world | Partial error

definition mkdir_parents :: "world \<Rightarrow> ppath \<Rightarrow> outcome" where
  "mkdir_parents w p =
     (case mkdirs (tree w) (resolve w p) of
        Inl e \<Rightarrow> Raised e w
      | Inr t \<Rightarrow> Done (w\<lparr>tree := t\<rparr>))"

text \<open>
  \<open>shutil.copy(src, dst)\<close>, contents only. A destination that is a directory stands for
  the entry named like the source inside it. \<open>copyfile\<close> then refuses to copy a file
  onto itself, opens the source for reading and the destination for writing.
\<close>

definition copy :: "world \<Rightarrow> ppath \<Rightarrow> ppath \<Rightarrow> outcome" where
  "copy w src dst =
     (let dst' = (if is_dir w dst then joinpath dst (PPath False [name_of src]) else dst);
          s = resolve w src;
          d = resolve w dst'
      in if stat w src \<noteq> None \<and> s = d then Raised SameFileError w
         else case stat w src of
                None \<Rightarrow> Raised (missing_error (tree w) s) w
              | Some (Dir _) \<Rightarrow> Raised IsADirectoryError w
              | Some (File b) \<Rightarrow>
                  (case fs_lookup (tree w) d of
                     Some (Dir _) \<Rightarrow> Raised IsADirectoryError w
                   | _ \<Rightarrow>
                      (case fs_lookup (tree w) (butlast d) of
                         Some (Dir _) \<Rightarrow> Done (w\<lparr>tree := fs_put (tree w) d (File b)\<rparr>)
                       | Some (File _) \<Rightarrow> Raised NotADirectoryError w
                       | None \<Rightarrow> Raised (missing_error (tree w) (butlast d)) w)))"

text \<open>
  \<open>shutil.copytree(src, dst)\<close> with its defaults (\<open>dirs_exist_ok=False\<close>): the source
  directory is listed, then \<open>os.makedirs(dst)\<close> creates the destination, which must not
  exist, and what is missing above it; then the entries are copied. When the destination
  lies two or more levels inside the source, below an entry of the source that exists,
  the copy finds its own output and descends into it until the system refuses a path:
  that is the \<open>Partial\<close> outcome. Otherwise the destination is the source as it was
  listed.
\<close>

definition copytree :: "world \<Rightarrow> ppath \<Rightarrow> ppath \<Rightarrow> outcome" where
  "copytree w src dst =
     (let s = resolve w src; d = resolve w dst in
      case fs_lookup (tree w) s of
        None \<Rightarrow> Raised (missing_error (tree w) s) w
      | Some (File _) \<Rightarrow> Raised NotADirectoryError w
      | Some (Dir listed) \<Rightarrow>
          if fs_lookup (tree w) d \<noteq> None then Raised FileExistsError w
          else case mkdirs (tree w) (butlast d) of
                 Inl e \<Rightarrow> Raised NotADirectoryError w
               | Inr t \<Rightarrow>
                   if prefix s d \<and> length s + 2 \<le> length d
                      \<and> fs_lookup (tree w) (take (Suc (length s)) d) \<noteq> None
                   then Partial ShutilError
                   else Done (w\<lparr>tree := fs_put t d (Dir listed)\<rparr>))"

section \<open>\<open>ploomber/clients/storage/local.py\<close>\<close>

record client =
  path_to_backup_dir :: ppath
  path_to_project_root :: path

text \<open>
  \<open>LocalStorageClient.__init__\<close>: the backup directory is created first, so it stays
  when the project root cannot be found.
\<close>

definition init :: "world \<Rightarrow> string \<Rightarrow> string option \<Rightarrow> (error + client) \<times> world" where
  "init w backup_dir project_root_arg =
     (case mkdir_parents w (Path backup_dir) of
        Raised e w' \<Rightarrow> (Inl e, w')
      | Partial e \<Rightarrow> (Inl e, w)
      | Done w' \<Rightarrow>
          if truthy project_root_arg
          then (Inr \<lparr>path_to_backup_dir = Path backup_dir,
                     path_to_project_root = resolve w' (Path (the project_root_arg))\<rparr>, w')
          else (case find_root_recursively w' None True of
                  Inl e \<Rightarrow> (Inl e, w')
                | Inr None \<Rightarrow> (Inl TypeError, w')
                | Inr (Some root) \<Rightarrow>
                    (Inr \<lparr>path_to_backup_dir = Path backup_dir,
                          path_to_project_root = resolve w' (PPath True root)\<rparr>, w')))"

text \<open>
  Modelled from the spec: \<open>_resolve\<close> of \<open>ploomber/clients/storage/util.py\<close>, which is
  not among the sources. The spec has \<open>map(local_path)\<close> "canonicalize \<open>local_path\<close> to an
  absolute path", with the path taken "after symlink/\<open>..\<close> normalization".
\<close>

definition util_resolve :: "world \<Rightarrow> string \<Rightarrow> path" where
  "util_resolve w local = resolve w (Path local)"

text \<open>
  \<open>_remote_path\<close>. \<open>PurePath.relative_to\<close> raises \<open>ValueError\<close> when the root's parts
  are not the first parts of the path.
\<close>

definition remote_path :: "client \<Rightarrow> world \<Rightarrow> string \<Rightarrow> error + ppath" where
  "remote_path c w local =
     (let p = util_resolve w local; root = path_to_project_root c in
      if prefix root p
      then Inr (joinpath (path_to_backup_dir c) (PPath False (drop (length root) p)))
      else Inl (ValueError ''not in the subpath''))"




definition upload :: "client \<Rightarrow> world \<Rightarrow> string \<Rightarrow> outcome" where
  "upload c w local =
     (case remote_path c w local of
        Inl e \<Rightarrow> Raised e w
      | Inr remote \<Rightarrow>
          case mkdir_parents w (parent remote) of
            Raised e w' \<Rightarrow> Raised e w'
          | Partial e \<Rightarrow> Partial e
          | Done w' \<Rightarrow>
              if is_file w' (Path local) then copy w' (Path local) remote
              else copytree w' (Path local) remote)"

section \<open>Vocabulary of the properties\<close>

text \<open>
  A marker called \<open>name\<close> exists \<open>k\<close> levels above directory \<open>D\<close> (level 0 is \<open>D\<close>
  itself).
\<close>

definition marker_at :: "world \<Rightarrow> path \<Rightarrow> string \<Rightarrow> nat \<Rightarrow> bool" where
  "marker_at w D name k = exists w (joinpath (PPath True ((butlast ^^ k) D)) (Path name))"

text \<open>A name that \<open>Path\<close> reads as one single name, and that is not \<open>..\<close>.\<close>

definition simple_name :: "string \<Rightarrow> bool" where
  "simple_name n = (Path n = PPath False [n] \<and> n \<noteq> ''..'')"

text \<open>
  No regular file stands at a canonical path or above it: the path is a directory, or
  \<open>mkdir -p\<close> can make it one.
\<close>

definition clear_way :: "(string \<times> node) list \<Rightarrow> path \<Rightarrow> bool" where
  "clear_way t p =
     list_all (\<lambda>q. case fs_lookup t q of Some (File _) \<Rightarrow> False | _ \<Rightarrow> True) (prefixes p)"

text \<open>The state with environment variable \<open>k\<close> set to \<open>v\<close>.\<close>

definition setenv :: "string \<Rightarrow> string \<Rightarrow> world \<Rightarrow> world" where
  "setenv k v w = w\<lparr>environ := AList.update k v (environ w)\<rparr>"

section \<open>Example states\<close>

text \<open>
  \<open>/p/environment.yml\<close> and \<open>/p/a/setup.py\<close>, working directory \<open>/p/a\<close>.
\<close>

definition w3 :: world where
  "w3 = \<lparr>tree = [(''p'', Dir [(''environment.yml'', File []), (''a'', Dir [(''setup.py'', File [])])])],
         cwd = [''p'', ''a''], environ = []\<rparr>"

text \<open>
  \<open>/proj/pipeline.yaml\<close> and \<open>/proj/src/package_a/pipeline.yaml\<close>, working directory
  \<open>/proj\<close>.
\<close>

definition w5 :: world where
  "w5 = \<lparr>tree = [(''proj'', Dir [(''pipeline.yaml'', File ''tasks''),
                                 (''src'', Dir [(''package_a'', Dir [(''pipeline.yaml'', File ''pkg'')])])])],
         cwd = [''proj''], environ = []\<rparr>"

text \<open>
  Three package directories under \<open>/proj/src\<close>, one of them build metadata, and no
  \<open>/proj/pipeline.yaml\<close>.
\<close>

definition w6 :: world where
  "w6 = \<lparr>tree = [(''proj'', Dir [(''src'', Dir [(''package_b'', Dir [(''pipeline.yaml'', File ''b'')]),
                                              (''package_a.egg-info'', Dir [(''pipeline.yaml'', File ''e'')]),
                                              (''package_a'', Dir [(''pipeline.yaml'', File ''a'')])])])],
         cwd = [''proj''], environ = []\<rparr>"

text \<open>
  A project \<open>/proj\<close> with a file and a directory, working directory \<open>/proj\<close>, and a
  client that mirrors \<open>/proj\<close> into \<open>backup\<close>.
\<close>

definition wt :: world where
  "wt = \<lparr>tree = [(''proj'', Dir [(''environment.yml'', File []),
                                 (''file'', File ''content''),
                                 (''dir'', Dir [(''file'', File ''nested'')])])],
         cwd = [''proj''], environ = []\<rparr>"

definition ct :: client where
  "ct = \<lparr>path_to_backup_dir = Path ''backup'', path_to_project_root = [''proj'']\<rparr>"

text \<open>
  The same project after \<open>dir\<close> was uploaded (\<open>wt_up\<close>), and with an older mirror of
  \<open>file\<close> and \<open>dir\<close> (\<open>wt_old\<close>).
\<close>

definition wt_up :: world where
  "wt_up = \<lparr>tree = [(''proj'', Dir [(''environment.yml'', File []),
                                    (''file'', File ''content''),
                                    (''dir'', Dir [(''file'', File ''nested'')]),
                                    (''backup'', Dir [(''dir'', Dir [(''file'', File ''nested'')])])])],
            cwd = [''proj''], environ = []\<rparr>"

definition wt_old :: world where
  "wt_old = \<lparr>tree = [(''proj'', Dir [(''environment.yml'', File []),
                                    (''file'', File ''content''),
                                    (''dir'', Dir [(''file'', File ''nested'')]),
                                    (''backup'', Dir [(''file'', File ''old''),
                                                      (''dir'', Dir [(''file'', File ''old'')])])])],
            cwd = [''proj''], environ = []\<rparr>"


section \<open>Canonical paths\<close>

lemma collapse_canonical: "''..'' \<notin> set ns \<Longrightarrow> collapse acc ns = acc @ ns"
  by (induction ns arbitrary: acc) auto

lemma collapse_no_dotdot: "''..'' \<notin> set acc \<Longrightarrow> ''..'' \<notin> set (collapse acc ns)"
  by (induction ns arbitrary: acc) (auto dest: in_set_butlastD)

lemma getcwd_canonical: "''..'' \<notin> set (getcwd w)"
  by (simp add: getcwd_def collapse_no_dotdot)

lemma resolve_canonical: "''..'' \<notin> set (resolve w p)"
  by (simp add: resolve_def resolve_in_def collapse_no_dotdot getcwd_canonical)

lemma start_dir_canonical: "''..'' \<notin> set (start_dir w sd)"
  by (simp add: start_dir_def getcwd_canonical resolve_canonical split: option.splits)

lemma ancestors_canonical: "''..'' \<notin> set d \<Longrightarrow> ''..'' \<notin> set ((butlast ^^ k) d)"
  by (induction k) (auto dest: in_set_butlastD)

lemma resolve_absolute: "''..'' \<notin> set d \<Longrightarrow> resolve w (PPath True d) = d"
  by (simp add: resolve_def resolve_in_def collapse_canonical)

lemma marker_at_Suc: "marker_at w (butlast cur) name j = marker_at w cur name (Suc j)"
  by (simp add: marker_at_def funpow_swap1)

lemma find_file_loop_None:
  "(\<forall>j<n. \<not> marker_at w cur name j) \<Longrightarrow> find_file_loop w name n cur = None"
proof (induction n arbitrary: cur)
  case 0
  then show ?case by simp
next
  case (Suc n)
  have here: "\<not> marker_at w cur name 0" using Suc.prems by blast
  have "\<forall>j<n. \<not> marker_at w (butlast cur) name j"
    using Suc.prems by (auto simp: marker_at_Suc)
  then have "find_file_loop w name n (butlast cur) = None" by (rule Suc.IH)
  with here show ?case by (simp add: marker_at_def Let_def)
qed

lemma find_file_loop_Some:
  "k < n \<Longrightarrow> marker_at w cur name k \<Longrightarrow> (\<forall>j<k. \<not> marker_at w cur name j) \<Longrightarrow>
   find_file_loop w name n cur =
     Some (resolve w (joinpath (PPath True ((butlast ^^ k) cur)) (Path name)))"
proof (induction n arbitrary: cur k)
  case 0
  then show ?case by simp
next
  case (Suc n)
  show ?case
  proof (cases k)
    case 0
    with Suc.prems show ?thesis by (simp add: marker_at_def Let_def)
  next
    case (Suc k')
    have here: "\<not> marker_at w cur name 0" using Suc.prems Suc by blast
    have a: "k' < n" using Suc.prems Suc by simp
    have b: "marker_at w (butlast cur) name k'" using Suc.prems Suc by (simp add: marker_at_Suc)
    have c: "\<forall>j<k'. \<not> marker_at w (butlast cur) name j"
      using Suc.prems Suc by (auto simp: marker_at_Suc)
    from Suc.IH[OF a b c] here Suc show ?thesis
      by (simp add: marker_at_def Let_def funpow_swap1)
  qed
qed


lemma collapse_append: "collapse acc (xs @ ys) = collapse (collapse acc xs) ys"
  by (induction xs arbitrary: acc) auto

lemma resolve_join_resolved:
  assumes "\<not> is_absolute q"
  shows "resolve w (joinpath (PPath True (resolve w p)) q) = resolve w (joinpath p q)"
proof -
  have c: "''..'' \<notin> set (resolve w p)" by (rule resolve_canonical)
  have "resolve w (joinpath (PPath True (resolve w p)) q) = collapse [] (resolve w p @ names q)"
    using assms by (simp add: resolve_def resolve_in_def joinpath_def)
  also have "\<dots> = collapse (resolve w p) (names q)"
    using c by (simp add: collapse_append collapse_canonical)
  also have "\<dots> = resolve w (joinpath p q)"
    using assms by (simp add: resolve_def resolve_in_def joinpath_def collapse_append)
  finally show ?thesis .
qed

lemma split_sep_no_sep: "CHR ''/'' \<notin> set s \<Longrightarrow> split_sep s = [s]"
  by (induction s) auto

lemma Path_simple:
  "CHR ''/'' \<notin> set s \<Longrightarrow> s \<noteq> [] \<Longrightarrow> s \<noteq> ''.'' \<Longrightarrow> Path s = PPath False [s]"
  by (cases s) (auto simp: Path_def split_sep_no_sep)

lemma FILENAME_simple:
  assumes "case name of None \<Rightarrow> True | Some n \<Rightarrow> CHR ''/'' \<notin> set n"
  shows "simple_name (FILENAME name)"
proof (cases name)
  case None
  then show ?thesis by (simp add: simple_name_def FILENAME_def Path_def)
next
  case (Some n)
  then have "CHR ''/'' \<notin> set (FILENAME name)" using assms by (simp add: FILENAME_def)
  moreover have "FILENAME name \<noteq> []" "FILENAME name \<noteq> ''.''" "FILENAME name \<noteq> ''..''"
    using Some by (simp_all add: FILENAME_def)
  ultimately show ?thesis by (simp add: simple_name_def Path_simple)
qed

lemma common_len_prefix: "common_len xs (xs @ ys) = length xs"
  by (induction xs) auto

lemma relpath_child: "relpath (R @ [n]) R = n"
  by (simp add: relpath_def common_len_prefix Let_def)

section \<open>Project root discovery\<close>

lemma options_simple: "\<forall>n\<in>set options. simple_name n"
  by (simp add: options_def simple_name_def Path_def)

lemma marker_parent:
  assumes "simple_name name" and "''..'' \<notin> set d"
  shows "butlast (resolve w (joinpath (PPath True d) (Path name))) = d"
proof -
  have "''..'' \<notin> set (d @ [name])" using assms by (auto simp: simple_name_def)
  then have "resolve w (PPath True (d @ [name])) = d @ [name]" by (rule resolve_absolute)
  then show ?thesis using assms by (simp add: simple_name_def joinpath_def)
qed

lemma find_root_loop_None:
  "(\<forall>n\<in>set opts. \<forall>j<6. \<not> marker_at w (start_dir w sd) n j) \<Longrightarrow> find_root_loop w sd opts = None"
  by (induction opts) (simp_all add: find_file_recursively_def find_file_loop_None)

lemma find_root_loop_Some:
  assumes "\<forall>n\<in>set pre. \<forall>j<6. \<not> marker_at w (start_dir w sd) n j"
    and "k < 6" and "marker_at w (start_dir w sd) name k"
    and "\<forall>j<k. \<not> marker_at w (start_dir w sd) name j"
    and "simple_name name"
  shows "find_root_loop w sd (pre @ name # post) = Some ((butlast ^^ k) (start_dir w sd))"
  using assms(1)
proof (induction pre)
  case Nil
  have "find_file_recursively w name 6 sd =
        Some (resolve w (joinpath (PPath True ((butlast ^^ k) (start_dir w sd))) (Path name)))"
    unfolding find_file_recursively_def using assms(2-4) by (rule find_file_loop_Some)
  then show ?case
    by (simp add: marker_parent[OF assms(5)] ancestors_canonical start_dir_canonical)
next
  case (Cons a pre)
  then have "find_file_recursively w a 6 sd = None"
    by (simp add: find_file_recursively_def find_file_loop_None)
  with Cons show ?case by simp
qed

text \<open>
  Claim C3, as the code has it. The marker names are tried in their priority order, and
  each name is searched through all six levels (the starting directory and its five
  nearest ancestors) before the next name is tried. So the result is the directory of the
  nearest marker of the first name, in priority order, that has a marker anywhere within
  the six levels: priority goes before proximity. When no name has a marker within the
  six levels the result is absent, or \<open>ValueError\<close> in strict mode.
\<close>

theorem find_root_recursively_priority_before_proximity:
  "(i < length options \<and> k < 6 \<and> marker_at w (start_dir w sd) (options ! i) k
      \<and> (\<forall>j<k. \<not> marker_at w (start_dir w sd) (options ! i) j)
      \<and> (\<forall>i'<i. \<forall>j<6. \<not> marker_at w (start_dir w sd) (options ! i') j)
     \<longrightarrow> find_root_recursively w sd strict = Inr (Some ((butlast ^^ k) (start_dir w sd))))
   \<and> ((\<forall>n\<in>set options. \<forall>j<6. \<not> marker_at w (start_dir w sd) n j)
     \<longrightarrow> find_root_recursively w sd strict =
           (if strict then Inl (ValueError ''Could not determine project root'') else Inr None))"
proof (intro conjI impI)
  assume a: "i < length options \<and> k < 6 \<and> marker_at w (start_dir w sd) (options ! i) k
      \<and> (\<forall>j<k. \<not> marker_at w (start_dir w sd) (options ! i) j)
      \<and> (\<forall>i'<i. \<forall>j<6. \<not> marker_at w (start_dir w sd) (options ! i') j)"
  then have i: "i < length options" by simp
  have split: "options = take i options @ options ! i # drop (Suc i) options"
    using i by (rule id_take_nth_drop)
  have pre: "\<forall>n\<in>set (take i options). \<forall>j<6. \<not> marker_at w (start_dir w sd) n j"
  proof
    fix n assume "n \<in> set (take i options)"
    then obtain i' where "i' < i" and "n = options ! i'"
      using i by (auto simp: in_set_conv_nth)
    with a show "\<forall>j<6. \<not> marker_at w (start_dir w sd) n j" by simp
  qed
  have simple: "simple_name (options ! i)" using options_simple i by simp
  have "find_root_loop w sd (take i options @ options ! i # drop (Suc i) options)
        = Some ((butlast ^^ k) (start_dir w sd))"
    using pre a simple by (intro find_root_loop_Some) simp_all
  with split have "find_root_loop w sd options = Some ((butlast ^^ k) (start_dir w sd))"
    by simp
  then show "find_root_recursively w sd strict = Inr (Some ((butlast ^^ k) (start_dir w sd)))"
    by (simp add: find_root_recursively_def)
next
  assume "\<forall>n\<in>set options. \<forall>j<6. \<not> marker_at w (start_dir w sd) n j"
  then have "find_root_loop w sd options = None" by (rule find_root_loop_None)
  then show "find_root_recursively w sd strict =
           (if strict then Inl (ValueError ''Could not determine project root'') else Inr None)"
    by (simp add: find_root_recursively_def)
qed

lemma w3_start: "start_dir w3 None = [''p'', ''a'']"
  by (simp add: start_dir_def getcwd_def w3_def)

lemma w3_marker_env0: "\<not> marker_at w3 [''p'', ''a''] ''environment.yml'' 0"
  by (simp add: marker_at_def exists_def stat_def resolve_def resolve_in_def getcwd_def
      joinpath_def Path_def w3_def)

lemma w3_marker_env1: "marker_at w3 [''p'', ''a''] ''environment.yml'' (Suc 0)"
  by (simp add: marker_at_def exists_def stat_def resolve_def resolve_in_def getcwd_def
      joinpath_def Path_def w3_def)

text \<open>
  In \<open>w3\<close> the search starts in \<open>/p/a\<close>: \<open>environment.yml\<close>, the first name, has its
  nearest marker one level up, so the root is \<open>/p\<close>.
\<close>

theorem find_root_recursively_priority_witness:
  "0 < length options \<and> Suc 0 < 6
   \<and> marker_at w3 (start_dir w3 None) (options ! 0) (Suc 0)
   \<and> \<not> marker_at w3 (start_dir w3 None) (options ! 0) 0
   \<and> find_root_recursively w3 None True = Inr (Some [''p''])"
proof -
  have o: "options ! 0 = ''environment.yml''" "0 < length options" by (simp_all add: options_def)
  have anc: "(butlast ^^ Suc 0) (start_dir w3 None) = [''p'']" by (simp add: w3_start)
  show ?thesis
    using find_root_recursively_priority_before_proximity[of 0 "Suc 0" w3 None True]
      w3_marker_env0 w3_marker_env1 o anc
    by (simp add: w3_start)
qed

text \<open>
  Claim C3 as stated fails in \<open>w3\<close>: the nearest marker from \<open>/p/a\<close> is
  \<open>/p/a/setup.py\<close>, at level 0, and no \<open>environment.yml\<close> lies at that level, yet the
  result is \<open>/p\<close>, the directory of the farther, higher-priority \<open>environment.yml\<close>, and
  not \<open>/p/a\<close>.
\<close>

theorem find_root_nearest_marker_counterexample:
  "marker_at w3 (start_dir w3 None) ''setup.py'' 0
   \<and> \<not> marker_at w3 (start_dir w3 None) ''environment.yml'' 0
   \<and> find_root_recursively w3 None False = Inr (Some [''p''])
   \<and> find_root_recursively w3 None False \<noteq> Inr (Some (start_dir w3 None))"
  by code_simp

section \<open>Manifest discovery\<close>

lemma or_else_nonempty: "d \<noteq> [] \<Longrightarrow> or_else x d \<noteq> []"
  by (simp add: or_else_def split: option.splits)

lemma start_dir_Some: "s \<noteq> [] \<Longrightarrow> start_dir w (Some s) = resolve w (Path s)"
  by (simp add: start_dir_def)

lemma glob_from_length:
  "x \<in> set (glob_from w pre ns) \<Longrightarrow> length (names x) = length (names pre) + length ns"
proof (induction ns arbitrary: pre)
  case Nil
  then show ?case by (simp split: if_splits)
next
  case (Cons n ns)
  show ?case
  proof (cases "n = ''*''")
    case True
    with Cons.prems obtain d where "x \<in> set (glob_from w (joinpath pre (PPath False [d])) ns)"
      by auto
    then have "length (names x) = length (names (joinpath pre (PPath False [d]))) + length ns"
      by (rule Cons.IH)
    then show ?thesis by (simp add: joinpath_def)
  next
    case False
    with Cons.prems have "x \<in> set (glob_from w (joinpath pre (PPath False [n])) ns)" by simp
    then have "length (names x) = length (names (joinpath pre (PPath False [n]))) + length ns"
      by (rule Cons.IH)
    then show ?thesis by (simp add: joinpath_def)
  qed
qed

lemma join_sep_has_sep: "2 \<le> length ns \<Longrightarrow> CHR ''/'' \<in> set (join_sep ns)"
  by (induction ns rule: join_sep.induct) auto

lemma path_str_has_sep: "2 \<le> length (names p) \<Longrightarrow> CHR ''/'' \<in> set (path_str p)"
  using join_sep_has_sep[of "names p"] by (auto simp: path_str_def)

lemma pattern_length:
  "2 \<le> length (names (joinpath (joinpath (joinpath r (Path ''src'')) (Path ''*'')) q))
   \<or> is_absolute q"
  by (simp add: joinpath_def Path_def)

lemma package_location_has_sep:
  assumes "package_location w r n = Some c" and "\<not> is_absolute (Path n)"
  shows "CHR ''/'' \<in> set c"
proof -
  let ?pat = "joinpath (joinpath (joinpath r (Path ''src'')) (Path ''*'')) (Path n)"
  let ?cands = "sort (filter (\<lambda>f. \<not> endswith (path_str (parent (Path f))) ''.egg-info'') (glob w ?pat))"
  from assms(1) have "case ?cands of [] \<Rightarrow> False | c' # _ \<Rightarrow> c' = c"
    by (simp add: package_location_def Let_def split: list.splits)
  then have "c \<in> set ?cands" by (cases ?cands) simp_all
  then have "c \<in> set (glob w ?pat)" by simp
  then obtain x where x: "x \<in> set (glob_from w (PPath (is_absolute ?pat) []) (names ?pat))"
    and c: "c = path_str x" by (auto simp: glob_def)
  from glob_from_length[OF x] have "length (names x) = length (names ?pat)" by simp
  moreover have "2 \<le> length (names ?pat)" using pattern_length[of r "Path n"] assms(2) by simp
  ultimately show ?thesis using c path_str_has_sep by simp
qed

lemma FILENAME_relative: "\<not> is_absolute (Path (FILENAME name))"
  by (simp add: FILENAME_def Path_def split: option.splits)

lemma FILENAME_no_sep:
  "(case name of None \<Rightarrow> True | Some n \<Rightarrow> CHR ''/'' \<notin> set n) \<Longrightarrow> CHR ''/'' \<notin> set (FILENAME name)"
  by (simp add: FILENAME_def split: option.splits)

text \<open>
  Claim C5. With \<open>ENTRY_POINT\<close> unset and a discriminator \<open>name\<close> free of separators,
  a manifest that exists directly in \<open>root_path\<close> is what \<open>entry_point\<close> returns, as the
  path relative to \<open>root_path\<close> (the bare file name); the package-style candidate
  \<open>src/*/<name>\<close>, whether one exists or not, is never the value returned.
\<close>

theorem entry_point_direct_manifest_wins:
  assumes unset: "getenv w ''ENTRY_POINT'' = None"
    and plain: "case name of None \<Rightarrow> True | Some n \<Rightarrow> CHR ''/'' \<notin> set n"
    and direct: "exists w (joinpath (Path (or_else root_path ''.'')) (Path (FILENAME name)))"
  shows "entry_point w root_path name = Inr (FILENAME name)
         \<and> package_location w (Path (or_else root_path ''.'')) (FILENAME name) \<noteq> Some (FILENAME name)"
proof
  let ?rp = "or_else root_path ''.''"
  let ?fn = "FILENAME name"
  have rp: "?rp \<noteq> []" by (simp add: or_else_nonempty)
  have simple: "simple_name ?fn" using plain by (rule FILENAME_simple)
  have rel: "\<not> is_absolute (Path ?fn)" by (rule FILENAME_relative)
  have here: "exists w (joinpath (PPath True (resolve w (Path ?rp))) (Path ?fn))"
    using direct by (simp add: exists_def stat_def resolve_join_resolved[OF rel])
  have "find_file_recursively w ?fn 6 (Some ?rp)
        = Some (resolve w (joinpath (PPath True (resolve w (Path ?rp))) (Path ?fn)))"
    using here by (simp add: find_file_recursively_def start_dir_Some[OF rp] eval_nat_numeral Let_def)
  moreover have "resolve w (joinpath (PPath True (resolve w (Path ?rp))) (Path ?fn))
                 = resolve w (Path ?rp) @ [?fn]"
  proof -
    have "''..'' \<notin> set (resolve w (Path ?rp) @ [?fn])"
      using simple resolve_canonical by (auto simp: simple_name_def)
    then have "resolve w (PPath True (resolve w (Path ?rp) @ [?fn])) = resolve w (Path ?rp) @ [?fn]"
      by (rule resolve_absolute)
    then show ?thesis using simple by (simp add: simple_name_def joinpath_def)
  qed
  ultimately show "entry_point w root_path name = Inr ?fn"
    using unset direct by (simp add: entry_point_def truthy_def Let_def relpath_child)
next
  show "package_location w (Path (or_else root_path ''.'')) (FILENAME name) \<noteq> Some (FILENAME name)"
    using package_location_has_sep[OF _ FILENAME_relative] FILENAME_no_sep[OF plain] by blast
qed

text \<open>
  In \<open>w5\<close> both \<open>pipeline.yaml\<close> and \<open>src/package_a/pipeline.yaml\<close> exist, and the
  direct one is returned.
\<close>

theorem entry_point_direct_manifest_witness:
  "getenv w5 ''ENTRY_POINT'' = None
   \<and> exists w5 (joinpath (Path (or_else None ''.'')) (Path (FILENAME None)))
   \<and> package_location w5 (Path (or_else None ''.'')) (FILENAME None) = Some ''src/package_a/pipeline.yaml''
   \<and> entry_point w5 None None = Inr ''pipeline.yaml''"
proof -
  have a: "getenv w5 ''ENTRY_POINT'' = None" by (simp add: getenv_def w5_def)
  have b: "exists w5 (joinpath (Path (or_else None ''.'')) (Path (FILENAME None)))" by code_simp
  have c: "package_location w5 (Path (or_else None ''.'')) (FILENAME None) = Some ''src/package_a/pipeline.yaml''"
    by code_simp
  have d: "FILENAME None = ''pipeline.yaml''" by (simp add: FILENAME_def)
  show ?thesis
    using entry_point_direct_manifest_wins[of w5 None None, OF a _ b] a b c d by simp
qed




text \<open>
  Claim C7, as the code has it. \<open>entry_point\<close> tests the variable with \<open>if env_var:\<close>,
  so a value that is set and not empty is returned verbatim, whatever \<open>root_path\<close>,
  \<open>name\<close> and the files on disk are.
\<close>

theorem entry_point_override_verbatim:
  "getenv w ''ENTRY_POINT'' = Some v \<Longrightarrow> v \<noteq> [] \<Longrightarrow> entry_point w root_path name = Inr v"
  by (simp add: entry_point_def truthy_def Let_def)

theorem entry_point_override_witness:
  "getenv (setenv ''ENTRY_POINT'' ''some.entry.point'' w6) ''ENTRY_POINT'' = Some ''some.entry.point''
   \<and> ''some.entry.point'' \<noteq> []
   \<and> entry_point (setenv ''ENTRY_POINT'' ''some.entry.point'' w6) None None = Inr ''some.entry.point''"
proof -
  have a: "getenv (setenv ''ENTRY_POINT'' ''some.entry.point'' w6) ''ENTRY_POINT''
           = Some ''some.entry.point''"
    by (simp add: getenv_def setenv_def update_conv')
  show ?thesis
    using entry_point_override_verbatim[OF a, of None None] a by simp
qed

text \<open>
  Claim C7 as stated fails when the variable is set to the empty string: the value is
  not returned, and discovery goes on to find \<open>pipeline.yaml\<close>.
\<close>

theorem entry_point_override_empty_counterexample:
  "getenv (setenv ''ENTRY_POINT'' [] w5) ''ENTRY_POINT'' = Some []
   \<and> entry_point (setenv ''ENTRY_POINT'' [] w5) None None = Inr ''pipeline.yaml''
   \<and> entry_point (setenv ''ENTRY_POINT'' [] w5) None None \<noteq> Inr []"
  by code_simp

section \<open>Environment file discovery\<close>

text \<open>
  Claim C9 is broken by the code when \<open>path_to_parent\<close> is \<open>None\<close>: with the variable
  set to \<open>conf/env.yaml\<close> (two path components), the \<open>ValueError\<close> message is built from
  \<open>Path(path_to_parent).resolve()\<close>, and \<open>Path(None)\<close> raises \<open>TypeError\<close> first. This
  holds in every state and for every \<open>name\<close>; a parent that is a path gets the
  \<open>ValueError\<close>.
\<close>

theorem path_to_env_with_name_override_dirs_no_parent:
  "path_to_env_with_name (setenv ''PLOOMBER_ENV_FILENAME'' ''conf/env.yaml'' w) name PyNone
     = Inl TypeError
   \<and> path_to_env_with_name (setenv ''PLOOMBER_ENV_FILENAME'' ''conf/env.yaml'' w) name (PyPath p)
     = Inl (ValueError ''PLOOMBER_ENV_FILENAME must be a filename'')"
proof -
  have "length (parts (Path ''conf/env.yaml'')) = 2" by (simp add: parts_def Path_def)
  then show ?thesis
    by (simp add: path_to_env_with_name_def getenv_def setenv_def update_conv' truthy_def to_Path_def Let_def)
qed

text \<open>
  Claim C10 is broken by the code when \<open>path_to_parent\<close> is \<open>None\<close>: in \<open>w5\<close> with the
  variable set to \<open>env.yaml\<close>, a file that exists nowhere, the final \<open>raise\<close> reads the
  unassigned local \<open>sibling_env\<close> and the call ends in \<open>UnboundLocalError\<close>; a parent
  that is a path gets the documented \<open>FileNotFoundError\<close>.
\<close>

theorem path_to_env_with_name_missing_no_parent:
  "path_to_env_with_name (setenv ''PLOOMBER_ENV_FILENAME'' ''env.yaml'' w5) None PyNone
     = Inl (UnboundLocalError ''sibling_env'')
   \<and> path_to_env_with_name (setenv ''PLOOMBER_ENV_FILENAME'' ''env.yaml'' w5) None (PyPath (Path ''src''))
     = Inl FileNotFoundError"
  by code_simp

section \<open>File system lemmas\<close>

lemma fs_lookup_Dir_append:
  "fs_lookup t p = Some (Dir es) \<Longrightarrow> fs_lookup t (p @ q) = fs_lookup es q"
  by (induction t p rule: fs_lookup.induct) (auto split: option.splits node.splits if_splits)

lemma fs_lookup_File_append:
  "fs_lookup t p = Some (File b) \<Longrightarrow> q \<noteq> [] \<Longrightarrow> fs_lookup t (p @ q) = None"
  by (induction t p rule: fs_lookup.induct) (auto split: option.splits node.splits if_splits)

lemma fs_lookup_None_append:
  "fs_lookup t p = None \<Longrightarrow> fs_lookup t (p @ q) = None"
  by (induction t p rule: fs_lookup.induct) (auto split: option.splits node.splits if_splits)

lemma fs_lookup_below_is_Dir:
  assumes "fs_lookup t (p @ q) \<noteq> None" and "q \<noteq> []"
  shows "\<exists>es. fs_lookup t p = Some (Dir es)"
proof (cases "fs_lookup t p")
  case None
  then have "fs_lookup t (p @ q) = None" by (rule fs_lookup_None_append)
  then show ?thesis using assms by simp
next
  case (Some n)
  then show ?thesis using assms fs_lookup_File_append[of t p _ q] by (cases n) auto
qed

lemma fs_put_same:
  "fs_lookup t (butlast p) = Some (Dir es) \<Longrightarrow> p \<noteq> [] \<Longrightarrow> fs_lookup (fs_put t p new) p = Some new"
proof (induction t p new arbitrary: es rule: fs_put.induct)
  case (1 es new)
  then show ?case by simp
next
  case (2 es n new)
  then show ?case by (cases new) (simp_all add: update_conv')
next
  case (3 t n m ns new)
  from "3.prems" obtain sub where sub: "map_of t n = Some (Dir sub)"
    and below: "fs_lookup sub (butlast (m # ns)) = Some (Dir es)"
    by (auto split: option.splits node.splits if_splits)
  have "fs_lookup (fs_put sub (m # ns) new) (m # ns) = Some new"
    using "3.IH"[OF sub _ below] sub by simp
  then show ?case using sub by (simp add: update_conv')
qed

lemma fs_put_other:
  "\<not> prefix p q \<Longrightarrow> \<not> prefix q p \<Longrightarrow> fs_lookup (fs_put t p new) q = fs_lookup t q"
proof (induction t p new arbitrary: q rule: fs_put.induct)
  case (1 es new)
  then show ?case by simp
next
  case (2 es n new)
  then obtain k ks where q: "q = k # ks" and "k \<noteq> n" by (cases q) auto
  then show ?case by (simp add: update_conv')
next
  case (3 t n m ns new)
  then obtain k ks where q: "q = k # ks" by (cases q) auto
  show ?case
  proof (cases "k = n")
    case False
    then show ?thesis using q by (auto simp: update_conv' split: option.splits node.splits)
  next
    case True
    with "3.prems" q have np: "\<not> prefix (m # ns) ks" "\<not> prefix ks (m # ns)" by auto
    show ?thesis
    proof (cases "map_of t n")
      case None
      then show ?thesis by simp
    next
      case (Some nd)
      show ?thesis
      proof (cases nd)
        case (File b)
        then show ?thesis using Some by simp
      next
        case (Dir sub)
        have "fs_lookup (fs_put sub (m # ns) new) ks = fs_lookup sub ks"
          using "3.IH"[OF _ _ np] Some Dir by simp
        moreover have "ks \<noteq> []" using np by auto
        ultimately show ?thesis using Some Dir q True by (simp add: update_conv')
      qed
    qed
  qed
qed

lemma mkdirs_existing:
  "fs_lookup t p = Some (Dir es) \<Longrightarrow> mkdirs t p = Inr t"
  by (induction t p rule: mkdirs.induct)
     (auto simp: update_triv split: option.splits node.splits if_splits)

lemma mkdirs_result_Dir:
  "mkdirs t p = Inr t' \<Longrightarrow> \<exists>es. fs_lookup t' p = Some (Dir es)"
proof (induction t p arbitrary: t' rule: mkdirs.induct)
  case (1 es)
  then show ?case by simp
next
  case (2 es n ns)
  then show ?case
    by (auto simp: update_conv' split: option.splits node.splits sum.splits if_splits)
qed

lemma mkdirs_frame:
  "mkdirs t p = Inr t' \<Longrightarrow> \<not> prefix q p \<Longrightarrow> fs_lookup t' q = fs_lookup t q"
proof (induction t p arbitrary: t' q rule: mkdirs.induct)
  case (1 es)
  then show ?case by simp
next
  case (2 es n ns)
  from "2.prems"(2) obtain k ks where q: "q = k # ks" by (cases q) auto
  show ?case
  proof (cases "k = n")
    case False
    then show ?thesis using "2.prems"(1) q
      by (auto simp: update_conv' split: option.splits node.splits sum.splits if_splits)
  next
    case True
    with "2.prems"(2) q have np: "\<not> prefix ks ns" by simp
    then have ks: "ks \<noteq> []" by auto
    show ?thesis
    proof (cases "map_of es n")
      case None
      with "2.prems"(1) obtain sub' where s: "mkdirs [] ns = Inr sub'"
        and t': "t' = AList.update n (Dir sub') es"
        by (auto split: sum.splits)
      have "fs_lookup sub' ks = fs_lookup [] ks" using "2.IH"(1)[OF None s np] .
      also have "\<dots> = None" using ks by (cases ks) simp_all
      finally show ?thesis using t' q True None by (simp add: update_conv')
    next
      case (Some nd)
      show ?thesis
      proof (cases nd)
        case (File b)
        then show ?thesis using Some "2.prems"(1) by simp
      next
        case (Dir sub)
        with Some "2.prems"(1) obtain sub' where s: "mkdirs sub ns = Inr sub'"
          and t': "t' = AList.update n (Dir sub') es"
          by (auto split: sum.splits)
        have "fs_lookup sub' ks = fs_lookup sub ks" using "2.IH"(2)[OF Some Dir s np] .
        then show ?thesis using t' q True Some Dir ks by (simp add: update_conv')
      qed
    qed
  qed
qed


lemma clear_way_iff:
  "clear_way t p \<longleftrightarrow> (\<forall>q b. prefix q p \<longrightarrow> fs_lookup t q \<noteq> Some (File b))"
  by (auto simp: clear_way_def list_all_iff split: option.splits node.splits)

lemma clear_way_Cons_Dir:
  assumes "clear_way t (n # ns)" and "map_of t n = Some (Dir sub)"
  shows "clear_way sub ns"
  unfolding clear_way_iff
proof (intro allI impI)
  fix q b assume "prefix q ns"
  then have "prefix (n # q) (n # ns)" by simp
  then have "fs_lookup t (n # q) \<noteq> Some (File b)" using assms(1) clear_way_iff by blast
  then show "fs_lookup sub q \<noteq> Some (File b)" using assms(2) by simp
qed

lemma clear_way_empty: "clear_way [] p"
  unfolding clear_way_iff
proof (intro allI impI)
  fix q :: path and b
  show "fs_lookup [] q \<noteq> Some (File b)" by (cases q) simp_all
qed

lemma mkdirs_clear_way: "clear_way t p \<Longrightarrow> \<exists>t'. mkdirs t p = Inr t'"
proof (induction t p rule: mkdirs.induct)
  case (1 es)
  then show ?case by simp
next
  case (2 es n ns)
  show ?case
  proof (cases "map_of es n")
    case None
    obtain t' where "mkdirs [] ns = Inr t'" using "2.IH"(1)[OF None clear_way_empty] by blast
    then show ?thesis using None by simp
  next
    case (Some nd)
    show ?thesis
    proof (cases nd)
      case (File b)
      have "prefix [n] (n # ns)" by simp
      then have "fs_lookup es [n] \<noteq> Some (File b)" using "2.prems" clear_way_iff by blast
      then show ?thesis using Some File by simp
    next
      case (Dir sub)
      have "clear_way sub ns" using "2.prems" Some Dir by (auto intro: clear_way_Cons_Dir)
      then obtain t' where "mkdirs sub ns = Inr t'" using "2.IH"(2)[OF Some Dir] by blast
      then show ?thesis using Some Dir by simp
    qed
  qed
qed

lemma resolve_tree_update [simp]: "resolve (w\<lparr>tree := t\<rparr>) p = resolve w p"
  by (simp add: resolve_def getcwd_def)

lemma stat_tree_update [simp]: "stat (w\<lparr>tree := t\<rparr>) p = fs_lookup t (resolve w p)"
  by (simp add: stat_def)

lemma collapse_snoc: "l \<noteq> ''..'' \<Longrightarrow> collapse acc (ns @ [l]) = collapse acc ns @ [l]"
  by (simp add: collapse_append)

lemma resolve_parent:
  assumes "names p \<noteq> []" and "last (names p) \<noteq> ''..''"
  shows "resolve w p = resolve w (parent p) @ [last (names p)]"
proof -
  have "names p = butlast (names p) @ [last (names p)]" using assms(1) by simp
  then have "collapse b (names p) = collapse b (butlast (names p)) @ [last (names p)]" for b
    using collapse_snoc[OF assms(2)] by metis
  then show ?thesis by (simp add: resolve_def resolve_in_def parent_def)
qed

lemma mkdir_parents_Done:
  assumes "clear_way (tree w) (resolve w p)"
  shows "\<exists>t. mkdirs (tree w) (resolve w p) = Inr t \<and> mkdir_parents w p = Done (w\<lparr>tree := t\<rparr>)"
  using mkdirs_clear_way[OF assms] by (auto simp: mkdir_parents_def)

text \<open>The mirror path of a path strictly below the project root.\<close>

lemma remote_path_below:
  assumes "remote_path c w local = Inr remote"
    and "util_resolve w local \<noteq> path_to_project_root c"
  shows "names remote \<noteq> [] \<and> last (names remote) \<noteq> ''..''
         \<and> resolve w remote = resolve w (parent remote) @ [last (names remote)]"
proof -
  let ?X = "util_resolve w local" and ?root = "path_to_project_root c"
  from assms(1) have pre: "prefix ?root ?X"
    and remote: "remote = joinpath (path_to_backup_dir c) (PPath False (drop (length ?root) ?X))"
    by (auto simp: remote_path_def Let_def split: if_splits)
  from pre assms(2) have rel: "drop (length ?root) ?X \<noteq> []"
    by (auto simp: prefix_def)
  have "''..'' \<notin> set ?X" by (simp add: util_resolve_def resolve_canonical)
  then have "''..'' \<notin> set (drop (length ?root) ?X)" by (auto dest: in_set_dropD)
  then have "last (drop (length ?root) ?X) \<noteq> ''..''" using rel last_in_set by metis
  then have a: "names remote \<noteq> []" and b: "last (names remote) \<noteq> ''..''"
    using rel remote by (simp_all add: joinpath_def)
  show ?thesis using a b resolve_parent[OF a b] by simp
qed

section \<open>The storage client\<close>



lemma is_file_iff: "is_file w p \<longleftrightarrow> (\<exists>b. stat w p = Some (File b))"
  by (auto simp: is_file_def split: option.splits node.splits)

lemma is_dir_iff: "is_dir w p \<longleftrightarrow> (\<exists>es. stat w p = Some (Dir es))"
  by (auto simp: is_dir_def split: option.splits node.splits)

lemma prefix_is_Dir:
  assumes "fs_lookup t p = Some (Dir es)" and "prefix q p"
  shows "\<exists>es'. fs_lookup t q = Some (Dir es')"
proof (cases "q = p")
  case True
  then show ?thesis using assms by simp
next
  case False
  with assms(2) obtain r where "p = q @ r" "r \<noteq> []" by (auto simp: prefix_def)
  then show ?thesis using assms(1) fs_lookup_below_is_Dir[of t q r] by simp
qed




section \<open>Copying between the project and the mirror\<close>




lemma clear_way_not_File:
  "clear_way t P \<Longrightarrow> fs_lookup t q = Some (File b) \<Longrightarrow> \<not> prefix q P"
  by (auto simp: clear_way_iff)

lemma fs_put_parent_Dir:
  assumes "fs_lookup t P = Some (Dir es)"
  shows "\<exists>es'. fs_lookup (fs_put t (P @ [l]) new) P = Some (Dir es')"
proof -
  have "fs_lookup (fs_put t (P @ [l]) new) (P @ [l]) = Some new"
    using fs_put_same[of t "P @ [l]" es new] assms by simp
  then show ?thesis using fs_lookup_below_is_Dir[of _ P "[l]"] by simp
qed

text \<open>What \<open>copy\<close> does with a regular file and a destination that is not a directory.\<close>

lemma copy_file_over:
  assumes src: "stat w src = Some (File b)"
    and dst: "resolve w dst = P @ [l]"
    and par: "fs_lookup (tree w) P = Some (Dir es)"
    and nodir: "\<not> is_dir w dst"
    and differ: "resolve w src \<noteq> resolve w dst"
  shows "copy w src dst = Done (w\<lparr>tree := fs_put (tree w) (P @ [l]) (File b)\<rparr>)"
proof -
  have s: "fs_lookup (tree w) (resolve w src) = Some (File b)" using src by (simp add: stat_def)
  have nd: "\<And>es'. fs_lookup (tree w) (P @ [l]) \<noteq> Some (Dir es')"
    using nodir dst by (simp add: is_dir_iff stat_def)
  have ne: "resolve w src \<noteq> P @ [l]" using differ dst by simp
  show ?thesis
  proof (cases "fs_lookup (tree w) (P @ [l])")
    case None
    then show ?thesis using s dst par nodir ne by (simp add: copy_def Let_def stat_def)
  next
    case (Some n)
    then obtain b' where "n = File b'" using nd by (cases n) simp_all
    then show ?thesis using Some s dst par nodir ne by (simp add: copy_def Let_def stat_def)
  qed
qed

text \<open>What \<open>copytree\<close> does with a directory and a destination that does not exist.\<close>

lemma copytree_fresh:
  assumes src: "stat w src = Some (Dir es)"
    and dst: "resolve w dst = P @ [l]"
    and par: "fs_lookup (tree w) P = Some (Dir ps)"
    and absent: "stat w dst = None"
    and outside: "\<not> prefix (resolve w src) (resolve w dst)"
  shows "copytree w src dst = Done (w\<lparr>tree := fs_put (tree w) (P @ [l]) (Dir es)\<rparr>)"
proof -
  have "mkdirs (tree w) P = Inr (tree w)" using par by (rule mkdirs_existing)
  then show ?thesis
    using src dst absent outside by (simp add: copytree_def Let_def stat_def)
qed

lemma copytree_exists:
  assumes "stat w src = Some (Dir es)" and "stat w dst \<noteq> None"
  shows "copytree w src dst = Raised FileExistsError w"
proof -
  have s: "fs_lookup (tree w) (resolve w src) = Some (Dir es)" using assms(1) by (simp add: stat_def)
  have d: "fs_lookup (tree w) (resolve w dst) \<noteq> None" using assms(2) by (simp add: stat_def)
  show ?thesis using s d by (simp add: copytree_def Let_def)
qed

text \<open>\<open>upload\<close> of a regular file.\<close>

lemma upload_file:
  assumes rp: "remote_path c w local = Inr remote"
    and below: "util_resolve w local \<noteq> path_to_project_root c"
    and way: "clear_way (tree w) (resolve w (parent remote))"
    and isfile: "stat w (Path local) = Some (File b)"
    and nodir: "\<not> is_dir w remote"
    and differ: "resolve w remote \<noteq> util_resolve w local"
  shows "\<exists>w'. upload c w local = Done w' \<and> cwd w' = cwd w
           \<and> stat w' remote = Some (File b) \<and> stat w' (Path local) = Some (File b)
           \<and> is_dir w' (parent remote)"
proof -
  let ?P = "resolve w (parent remote)" and ?X = "resolve w (Path local)"
  let ?l = "last (names remote)"
  have R: "resolve w remote = ?P @ [?l]" using remote_path_below[OF rp below] by simp
  obtain t where t: "mkdirs (tree w) ?P = Inr t"
    and md: "mkdir_parents w (parent remote) = Done (w\<lparr>tree := t\<rparr>)"
    using mkdir_parents_Done[OF way] by blast
  let ?w1 = "w\<lparr>tree := t\<rparr>"
  have frame: "\<And>q. \<not> prefix q ?P \<Longrightarrow> fs_lookup t q = fs_lookup (tree w) q"
    using mkdirs_frame[OF t] by blast
  have X: "fs_lookup (tree w) ?X = Some (File b)" using isfile by (simp add: stat_def)
  have XP: "\<not> prefix ?X ?P" using clear_way_not_File[OF way X] .
  have X1: "fs_lookup t ?X = Some (File b)" using frame[OF XP] X by simp
  have RP: "\<not> prefix (?P @ [?l]) ?P" by (simp add: prefix_def)
  have R1: "fs_lookup t (?P @ [?l]) = fs_lookup (tree w) (?P @ [?l])" using frame[OF RP] .
  obtain ps where P1: "fs_lookup t ?P = Some (Dir ps)" using mkdirs_result_Dir[OF t] by blast
  have nd1: "\<not> is_dir ?w1 remote" using nodir R R1 by (simp add: is_dir_iff stat_def)
  have neq: "?P @ [?l] \<noteq> ?X" using differ R by (simp add: util_resolve_def)
  have cp: "copy ?w1 (Path local) remote = Done (?w1\<lparr>tree := fs_put t (?P @ [?l]) (File b)\<rparr>)"
    using copy_file_over[of ?w1 "Path local" b remote ?P ?l ps] X1 R P1 nd1 neq
    by (simp add: stat_def)
  let ?w2 = "?w1\<lparr>tree := fs_put t (?P @ [?l]) (File b)\<rparr>"
  have up: "upload c w local = Done ?w2"
    using rp md X1 cp by (simp add: upload_def is_file_iff)
  have r2: "stat ?w2 remote = Some (File b)"
    using fs_put_same[of t "?P @ [?l]" ps "File b"] P1 R by simp
  have XR: "\<not> prefix ?X (?P @ [?l])" using XP neq by auto
  have RX: "\<not> prefix (?P @ [?l]) ?X"
  proof
    assume "prefix (?P @ [?l]) ?X"
    then obtain r where r: "?X = (?P @ [?l]) @ r" "r \<noteq> []" using neq by (auto simp: prefix_def)
    then have "fs_lookup t ((?P @ [?l]) @ r) \<noteq> None" using X1 by simp
    then obtain ds where "fs_lookup t (?P @ [?l]) = Some (Dir ds)"
      using fs_lookup_below_is_Dir r(2) by blast
    then show False using nd1 R by (simp add: is_dir_iff stat_def)
  qed
  have l2: "stat ?w2 (Path local) = Some (File b)"
    using fs_put_other[OF RX XR] X1 by simp
  have p2: "is_dir ?w2 (parent remote)"
    using fs_put_parent_Dir[OF P1] by (simp add: is_dir_iff)
  show ?thesis using up r2 l2 p2 by (intro exI[of _ ?w2]) simp
qed

text \<open>\<open>upload\<close> of a directory.\<close>

lemma upload_dir:
  assumes rp: "remote_path c w local = Inr remote"
    and below: "util_resolve w local \<noteq> path_to_project_root c"
    and way: "clear_way (tree w) (resolve w (parent remote))"
    and dir: "stat w (Path local) = Some (Dir es)"
    and absent: "stat w remote = None"
    and outside: "\<not> prefix (util_resolve w local) (resolve w remote)"
  shows "\<exists>w'. upload c w local = Done w' \<and> cwd w' = cwd w
           \<and> stat w' remote = Some (Dir es) \<and> stat w' (Path local) = Some (Dir es)
           \<and> is_dir w' (parent remote)"
proof -
  let ?P = "resolve w (parent remote)" and ?X = "resolve w (Path local)"
  let ?l = "last (names remote)"
  have R: "resolve w remote = ?P @ [?l]" using remote_path_below[OF rp below] by simp
  obtain t where t: "mkdirs (tree w) ?P = Inr t"
    and md: "mkdir_parents w (parent remote) = Done (w\<lparr>tree := t\<rparr>)"
    using mkdir_parents_Done[OF way] by blast
  let ?w1 = "w\<lparr>tree := t\<rparr>"
  have frame: "\<And>q. \<not> prefix q ?P \<Longrightarrow> fs_lookup t q = fs_lookup (tree w) q"
    using mkdirs_frame[OF t] by blast
  have X: "fs_lookup (tree w) ?X = Some (Dir es)" using dir by (simp add: stat_def)
  have XR: "\<not> prefix ?X (?P @ [?l])" using outside R by (simp add: util_resolve_def)
  then have XP: "\<not> prefix ?X ?P" by auto
  have X1: "fs_lookup t ?X = Some (Dir es)" using frame[OF XP] X by simp
  have RP: "\<not> prefix (?P @ [?l]) ?P" by (simp add: prefix_def)
  have R1: "fs_lookup t (?P @ [?l]) = None" using frame[OF RP] absent R by (simp add: stat_def)
  obtain ps where P1: "fs_lookup t ?P = Some (Dir ps)" using mkdirs_result_Dir[OF t] by blast
  have nf: "\<not> is_file ?w1 (Path local)" using X1 by (simp add: is_file_iff)
  have ct: "copytree ?w1 (Path local) remote = Done (?w1\<lparr>tree := fs_put t (?P @ [?l]) (Dir es)\<rparr>)"
    using copytree_fresh[of ?w1 "Path local" es remote ?P ?l ps] X1 R P1 R1 XR
    by (simp add: stat_def)
  let ?w2 = "?w1\<lparr>tree := fs_put t (?P @ [?l]) (Dir es)\<rparr>"
  have up: "upload c w local = Done ?w2"
    using rp md nf ct by (simp add: upload_def)
  have r2: "stat ?w2 remote = Some (Dir es)"
    using fs_put_same[of t "?P @ [?l]" ps "Dir es"] P1 R by simp
  have RX: "\<not> prefix (?P @ [?l]) ?X"
  proof
    assume "prefix (?P @ [?l]) ?X"
    then obtain r where r: "?X = (?P @ [?l]) @ r" by (auto simp: prefix_def)
    then have "fs_lookup t ((?P @ [?l]) @ r) \<noteq> None" using X1 by simp
    then show False using fs_lookup_None_append[OF R1, of r] by simp
  qed
  have l2: "stat ?w2 (Path local) = Some (Dir es)"
    using fs_put_other[OF RX XR] X1 by simp
  have p2: "is_dir ?w2 (parent remote)"
    using fs_put_parent_Dir[OF P1] by (simp add: is_dir_iff)
  show ?thesis using up r2 l2 p2 by (intro exI[of _ ?w2]) simp
qed

text \<open>\<open>upload\<close> of a directory whose mirror path is taken.\<close>

lemma upload_dir_exists:
  assumes rp: "remote_path c w local = Inr remote"
    and below: "util_resolve w local \<noteq> path_to_project_root c"
    and way: "clear_way (tree w) (resolve w (parent remote))"
    and dir: "stat w (Path local) = Some (Dir es)"
    and taken: "stat w remote \<noteq> None"
  shows "\<exists>w'. upload c w local = Raised FileExistsError w' \<and> stat w' remote = stat w remote"
proof -
  let ?P = "resolve w (parent remote)" and ?X = "resolve w (Path local)"
  let ?l = "last (names remote)"
  have R: "resolve w remote = ?P @ [?l]" using remote_path_below[OF rp below] by simp
  obtain t where t: "mkdirs (tree w) ?P = Inr t"
    and md: "mkdir_parents w (parent remote) = Done (w\<lparr>tree := t\<rparr>)"
    using mkdir_parents_Done[OF way] by blast
  let ?w1 = "w\<lparr>tree := t\<rparr>"
  have frame: "\<And>q. \<not> prefix q ?P \<Longrightarrow> fs_lookup t q = fs_lookup (tree w) q"
    using mkdirs_frame[OF t] by blast
  have X: "fs_lookup (tree w) ?X = Some (Dir es)" using dir by (simp add: stat_def)
  obtain ps where P1: "fs_lookup t ?P = Some (Dir ps)" using mkdirs_result_Dir[OF t] by blast
  have X1: "\<exists>es'. fs_lookup t ?X = Some (Dir es')"
  proof (cases "prefix ?X ?P")
    case True
    then show ?thesis using prefix_is_Dir[OF P1] by blast
  next
    case False
    then show ?thesis using frame X by simp
  qed
  have RP: "\<not> prefix (?P @ [?l]) ?P" by (simp add: prefix_def)
  have R1: "stat ?w1 remote = stat w remote" using frame[OF RP] R by (simp add: stat_def)
  have nf: "\<not> is_file ?w1 (Path local)" using X1 by (auto simp: is_file_iff)
  obtain es' where "stat ?w1 (Path local) = Some (Dir es')" using X1 by auto
  then have "copytree ?w1 (Path local) remote = Raised FileExistsError ?w1"
    using R1 taken by (intro copytree_exists) simp_all
  then have "upload c w local = Raised FileExistsError ?w1"
    using rp md nf by (simp add: upload_def)
  then show ?thesis using R1 by blast
qed

lemma tree_update_same [simp]: "w\<lparr>tree := tree w\<rparr> = w"
  by (cases w) simp




section \<open>Upload\<close>

text \<open>
  Claim C2, as the code has it. For a path strictly below the project root whose mirror
  parent exists or can be created (no regular file stands at or above it), \<open>upload\<close>
  creates that parent and then: a regular file is copied to the mirror path, replacing a
  regular file already there (the mirror path must not be a directory, nor the file
  itself); a directory is copied as a whole tree when nothing exists at the mirror path
  (and the mirror path is not inside the directory); a directory whose mirror path is
  taken is not copied: \<open>copytree\<close> raises \<open>FileExistsError\<close> and the mirror entry stays
  as it was.
\<close>

theorem upload_to_mirror:
  assumes rp: "remote_path c w local = Inr remote"
    and below: "util_resolve w local \<noteq> path_to_project_root c"
    and way: "clear_way (tree w) (resolve w (parent remote))"
  shows "(stat w (Path local) = Some (File b) \<and> \<not> is_dir w remote
            \<and> resolve w remote \<noteq> util_resolve w local
          \<longrightarrow> (\<exists>w'. upload c w local = Done w' \<and> is_dir w' (parent remote)
                  \<and> stat w' remote = Some (File b) \<and> stat w' (Path local) = Some (File b)))
       \<and> (stat w (Path local) = Some (Dir es) \<and> stat w remote = None
            \<and> \<not> prefix (util_resolve w local) (resolve w remote)
          \<longrightarrow> (\<exists>w'. upload c w local = Done w' \<and> is_dir w' (parent remote)
                  \<and> stat w' remote = Some (Dir es) \<and> stat w' (Path local) = Some (Dir es)))
       \<and> (stat w (Path local) = Some (Dir es) \<and> stat w remote \<noteq> None
          \<longrightarrow> (\<exists>w'. upload c w local = Raised FileExistsError w'
                  \<and> stat w' remote = stat w remote))"
proof (intro conjI impI)
  assume "stat w (Path local) = Some (File b) \<and> \<not> is_dir w remote
            \<and> resolve w remote \<noteq> util_resolve w local"
  then show "\<exists>w'. upload c w local = Done w' \<and> is_dir w' (parent remote)
                  \<and> stat w' remote = Some (File b) \<and> stat w' (Path local) = Some (File b)"
    using upload_file[OF rp below way, of b] by blast
next
  assume "stat w (Path local) = Some (Dir es) \<and> stat w remote = None
            \<and> \<not> prefix (util_resolve w local) (resolve w remote)"
  then show "\<exists>w'. upload c w local = Done w' \<and> is_dir w' (parent remote)
                  \<and> stat w' remote = Some (Dir es) \<and> stat w' (Path local) = Some (Dir es)"
    using upload_dir[OF rp below way, of es] by blast
next
  assume "stat w (Path local) = Some (Dir es) \<and> stat w remote \<noteq> None"
  then show "\<exists>w'. upload c w local = Raised FileExistsError w' \<and> stat w' remote = stat w remote"
    using upload_dir_exists[OF rp below way, of es] by blast
qed

text \<open>
  In \<open>wt_old\<close> the mirror holds an older \<open>file\<close>, which the upload replaces; in \<open>wt\<close>
  nothing is mirrored yet and \<open>dir\<close> is copied as a tree.
\<close>

theorem upload_to_mirror_witness:
  "remote_path ct wt_old ''file'' = Inr (Path ''backup/file'')
   \<and> util_resolve wt_old ''file'' \<noteq> path_to_project_root ct
   \<and> clear_way (tree wt_old) (resolve wt_old (parent (Path ''backup/file'')))
   \<and> stat wt_old (Path ''file'') = Some (File ''content'')
   \<and> stat wt_old (Path ''backup/file'') = Some (File ''old'')
   \<and> (\<exists>w'. upload ct wt_old ''file'' = Done w' \<and> stat w' (Path ''backup/file'') = Some (File ''content''))
   \<and> remote_path ct wt ''dir'' = Inr (Path ''backup/dir'')
   \<and> stat wt (Path ''dir'') = Some (Dir [(''file'', File ''nested'')])
   \<and> stat wt (Path ''backup/dir'') = None
   \<and> (\<exists>w'. upload ct wt ''dir'' = Done w'
          \<and> stat w' (Path ''backup/dir'') = Some (Dir [(''file'', File ''nested'')]))"
proof -
  have a: "remote_path ct wt_old ''file'' = Inr (Path ''backup/file'')" by code_simp
  have b: "util_resolve wt_old ''file'' \<noteq> path_to_project_root ct" by code_simp
  have c: "clear_way (tree wt_old) (resolve wt_old (parent (Path ''backup/file'')))" by code_simp
  have d: "stat wt_old (Path ''file'') = Some (File ''content'')" by code_simp
  have e: "stat wt_old (Path ''backup/file'') = Some (File ''old'')" by code_simp
  have f: "\<not> is_dir wt_old (Path ''backup/file'')" by code_simp
  have g: "resolve wt_old (Path ''backup/file'') \<noteq> util_resolve wt_old ''file''" by code_simp
  have a': "remote_path ct wt ''dir'' = Inr (Path ''backup/dir'')" by code_simp
  have b': "util_resolve wt ''dir'' \<noteq> path_to_project_root ct" by code_simp
  have c': "clear_way (tree wt) (resolve wt (parent (Path ''backup/dir'')))" by code_simp
  have d': "stat wt (Path ''dir'') = Some (Dir [(''file'', File ''nested'')])" by code_simp
  have e': "stat wt (Path ''backup/dir'') = None" by code_simp
  have g': "\<not> prefix (util_resolve wt ''dir'') (resolve wt (Path ''backup/dir''))" by code_simp
  have one: "\<exists>w'. upload ct wt_old ''file'' = Done w' \<and> stat w' (Path ''backup/file'') = Some (File ''content'')"
    using upload_to_mirror[OF a b c, of "''content''" "[]"] d f g by blast
  have two: "\<exists>w'. upload ct wt ''dir'' = Done w'
          \<and> stat w' (Path ''backup/dir'') = Some (Dir [(''file'', File ''nested'')])"
    using upload_to_mirror[OF a' b' c', of "[]" "[(''file'', File ''nested'')]"] d' e' g' by blast
  show ?thesis using a b c d e one a' d' e' two by blast
qed

text \<open>
  Claim C2 as stated fails for directories: the first upload of \<open>dir\<close> succeeds and
  gives \<open>wt_up\<close>, the second one raises \<open>FileExistsError\<close>; and in \<open>wt_old\<close>, where the
  mirror of \<open>dir\<close> holds older content, the upload raises \<open>FileExistsError\<close> and the old
  content stays.
\<close>

theorem upload_directory_twice_counterexample:
  "upload ct wt ''dir'' = Done wt_up
   \<and> upload ct wt_up ''dir'' = Raised FileExistsError wt_up
   \<and> stat wt_old (Path ''dir'') = Some (Dir [(''file'', File ''nested'')])
   \<and> stat wt_old (Path ''backup/dir'') = Some (Dir [(''file'', File ''old'')])
   \<and> upload ct wt_old ''dir'' = Raised FileExistsError wt_old"
  by code_simp

section \<open>Round trip\<close>





end
